theory Spec2Isabelle
  imports Complex_Main
begin

section \<open>Numbers and strings of the scraper\<close>

text \<open>
  JavaScript strings are modelled as \<^typ>\<open>string\<close>. Every character test of the
  source is against ASCII (\<open>\d\<close>, \<open>.\<close>, \<open>,\<close>, \<open>-\<close>, \<open>/\<close>), so a
  character outside ASCII fails each of them in either encoding.

  A JavaScript number is an IEEE double. The model keeps three kinds of
  non-finite result apart and writes a finite double as the exact rational it
  was read or computed from: rounding to the nearest double is not modelled,
  overflow to an infinity is.
\<close>

datatype jsnum = NaN | PosInfinity | NegInfinity | Fin rat

definition isDigit :: "char \<Rightarrow> bool" where
  "isDigit c = (48 \<le> (of_char c :: nat) \<and> (of_char c :: nat) \<le> 57)"

definition digitValue :: "char \<Rightarrow> nat" where
  "digitValue c = of_char c - 48"

text \<open>The value of a run of decimal digits, most significant first.\<close>

definition digitsValue :: "string \<Rightarrow> nat" where
  "digitsValue ds = foldl (\<lambda>a c. 10 * a + digitValue c) 0 ds"

text \<open>
  \<open>String.prototype.replace\<close> with a string pattern replaces the first
  occurrence only.
\<close>

fun replaceFirst :: "char \<Rightarrow> char \<Rightarrow> string \<Rightarrow> string" where
  "replaceFirst a b [] = []"
| "replaceFirst a b (c # cs) = (if c = a then b # cs else c # replaceFirst a b cs)"

text \<open>
  The least magnitude that rounds to an infinity: halfway between the largest
  double and \<open>2 ^ 1024\<close>.
\<close>

definition overflowThreshold :: rat where
  "overflowThreshold = 2 ^ 1024 - 2 ^ 970"

definition roundDouble :: "rat \<Rightarrow> jsnum" where
  "roundDouble v =
     (if overflowThreshold \<le> v then PosInfinity
      else if v \<le> - overflowThreshold then NegInfinity
      else Fin v)"

text \<open>
  The longest prefix of the input that is a \<open>StrDecimalLiteral\<close>, read
  exactly. Both callers hand \<open>parseFloat\<close> a string that their last
  \<open>replace\<close> has cut down to digits, dots and (for the daily normaliser)
  minus signs, so leading white space, a plus sign, an exponent part and the
  word \<open>Infinity\<close> cannot occur and are not part of this model.
\<close>

definition strDecimalPrefix :: "string \<Rightarrow> rat option" where
  "strDecimalPrefix s =
     (let neg = (case s of [] \<Rightarrow> False | c # _ \<Rightarrow> c = CHR ''-'');
          body = (if neg then tl s else s);
          ip = takeWhile isDigit body;
          rest = dropWhile isDigit body;
          fp = (case rest of [] \<Rightarrow> [] | c # cs \<Rightarrow> if c = CHR ''.'' then takeWhile isDigit cs else [])
      in if ip = [] \<and> fp = [] then None
         else Some ((if neg then - 1 else 1) *
                (of_nat (digitsValue ip) + of_nat (digitsValue fp) / 10 ^ length fp)))"

definition parseFloat :: "string \<Rightarrow> jsnum" where
  "parseFloat s = (case strDecimalPrefix s of None \<Rightarrow> NaN | Some v \<Rightarrow> roundDouble v)"

text \<open>
  \<open>Number.isFinite(num) ? num : null\<close>, where \<open>num\<close> is a number or
  \<open>null\<close>.
\<close>

fun finiteOrNull :: "jsnum option \<Rightarrow> rat option" where
  "finiteOrNull (Some (Fin v)) = Some v"
| "finiteOrNull _ = None"

subsection \<open>The daily normaliser\<close>

text \<open>\<open>normalizeNumber\<close> of \<open>scrapeDailyHourlyUsage\<close>.\<close>

definition normalizeNumber :: "string \<Rightarrow> rat option" where
  "normalizeNumber str =
     (if str = [] \<or> str = ''-'' \<or> str = ''N/A'' then None
      else
        let normalized =
              filter (\<lambda>c. isDigit c \<or> c = CHR ''.'' \<or> c = CHR ''-'')
                (replaceFirst CHR '','' CHR ''.'' (filter (\<lambda>c. c \<noteq> CHR ''.'') str));
            num = (if normalized \<noteq> [] then Some (parseFloat normalized) else None)
        in finiteOrNull num)"

subsection \<open>The monthly normaliser\<close>

text \<open>The body of the loop over \<open>data.map\<close> in \<open>scrapeMonthlyActiveEnergy\<close>.\<close>

definition parseMonthlyValue :: "string \<Rightarrow> rat option" where
  "parseMonthlyValue raw =
     (if raw = [] then None
      else
        let normalized =
              filter (\<lambda>c. isDigit c \<or> c = CHR ''.'')
                (replaceFirst CHR '','' CHR ''.'' (filter (\<lambda>c. c \<noteq> CHR ''.'') raw));
            num = (if normalized \<noteq> [] then Some (parseFloat normalized) else None)
        in finiteOrNull num)"

section \<open>Daily extraction\<close>

text \<open>
  \<open>scrapeDailyHourlyUsage\<close> reads the table through the browser and then
  structures it. What \<open>page.evaluate\<close> returns is the input here: either
  an error text (no table, too few rows) or the rows, each with the text of its
  first cell and the texts of the cells after it.
\<close>

record rawDay =
  dateCell :: string
  hourlyValues :: "string list"

text \<open>
  A cell of the \<open>hours\<close> object: a key that was never assigned is absent
  (\<open>undefined\<close> when read), an assigned key holds a number or \<open>null\<close>.
\<close>

type_synonym hoursMap = "string \<rightharpoonup> rat option"

record dayReading =
  date :: string
  hours :: hoursMap
  total_kwh :: rat

record dailyData =
  year :: int
  month :: "string option"
  days :: "dayReading list"

text \<open>
  \<open>String(h).padStart(2, '0') + ':00'\<close>. The loops that build a label run
  \<open>h\<close> below 24; the two digits written here are that string for every
  \<open>h\<close> below 100.
\<close>

definition hourLabel :: "nat \<Rightarrow> string" where
  "hourLabel h = [''0123456789'' ! (h div 10), ''0123456789'' ! (h mod 10), CHR '':'', CHR ''0'', CHR ''0'']"

text \<open>
  \<open>parseFloat(x.toFixed(3))\<close>: \<open>toFixed\<close> takes the nearest multiple of
  a thousandth, the larger in magnitude on a tie, and prints a magnitude of
  \<open>10 ^ 21\<close> or more unrounded.
\<close>

definition toFixed3 :: "rat \<Rightarrow> rat" where
  "toFixed3 x =
     (if 10 ^ 21 \<le> \<bar>x\<bar> then x
      else if x < 0 then - (of_int \<lfloor>- x * 1000 + 1 / 2\<rfloor> / 1000)
      else of_int \<lfloor>x * 1000 + 1 / 2\<rfloor> / 1000)"

text \<open>
  The loop \<open>for (let h = 0; h < Math.min(24, dayData.hourlyValues.length); h++)\<close>
  over the hours still to visit, with the state \<open>(hours, totalKwh, validValues)\<close>.
\<close>

fun hourCellsLoop :: "string list \<Rightarrow> nat list \<Rightarrow> hoursMap \<times> rat \<times> nat \<Rightarrow> hoursMap \<times> rat \<times> nat" where
  "hourCellsLoop vals [] st = st"
| "hourCellsLoop vals (h # hs) (hrs, totalKwh, validValues) =
     (let v = normalizeNumber (vals ! h);
          hrs' = hrs(hourLabel h \<mapsto> v)
      in case v of
           None \<Rightarrow> hourCellsLoop vals hs (hrs', totalKwh, validValues)
         | Some x \<Rightarrow> hourCellsLoop vals hs (hrs', totalKwh + x, validValues + 1))"

text \<open>One pass of the loop over \<open>data.days\<close>: the day pushed, if any.\<close>

definition parseDay :: "rawDay \<Rightarrow> dayReading option" where
  "parseDay dayData =
     (case hourCellsLoop (hourlyValues dayData)
             [0 ..< min 24 (length (hourlyValues dayData))] (Map.empty, 0, 0) of
        (hrs, totalKwh, validValues) \<Rightarrow>
          if validValues > 0
          then Some \<lparr>date = dateCell dayData, hours = hrs, total_kwh = toFixed3 totalKwh\<rparr>
          else None)"

fun parseDays :: "rawDay list \<Rightarrow> dayReading list" where
  "parseDays [] = []"
| "parseDays (dayData # rest) =
     (case parseDay dayData of
        None \<Rightarrow> parseDays rest
      | Some d \<Rightarrow> d # parseDays rest)"

text \<open>\<open>dateCell.match(/\d{4}/)\<close>: the leftmost four digits in a row.\<close>

fun matchFourDigits :: "string \<Rightarrow> string option" where
  "matchFourDigits [] = None"
| "matchFourDigits (c # cs) =
     (if 4 \<le> length (takeWhile isDigit (c # cs)) then Some (take 4 (c # cs))
      else matchFourDigits cs)"

definition scrapeYear :: "int \<Rightarrow> rawDay list \<Rightarrow> int" where
  "scrapeYear currentYear rows =
     (case rows of
        [] \<Rightarrow> currentYear
      | d # _ \<Rightarrow>
          if dateCell d = [] then currentYear
          else (case matchFourDigits (dateCell d) of
                  None \<Rightarrow> currentYear
                | Some ds \<Rightarrow> int (digitsValue ds)))"

text \<open>
  The function after \<open>page.evaluate\<close>; \<open>currentYear\<close> stands for
  \<open>new Date().getFullYear()\<close>, and \<open>None\<close> for the \<open>null\<close> returned
  when the page gave an error.
\<close>

definition scrapeDailyHourlyUsage :: "int \<Rightarrow> string + rawDay list \<Rightarrow> string option \<Rightarrow> dailyData option" where
  "scrapeDailyHourlyUsage currentYear data monthName =
     (case data of
        Inl err \<Rightarrow> None
      | Inr rows \<Rightarrow>
          Some \<lparr>year = scrapeYear currentYear rows, month = monthName, days = parseDays rows\<rparr>)"

section \<open>Monthly series and the drill-down month\<close>

text \<open>
  What \<open>scrapeMonthlyActiveEnergy\<close> returns. In \<open>parsed\<close> a month that is
  no key reads as \<open>undefined\<close> (\<open>None\<close>); a key holds a number or
  \<open>null\<close>.
\<close>

record monthsData =
  raw :: "string \<rightharpoonup> string"
  parsed :: "string \<rightharpoonup> rat option"
  months :: "string list"

text \<open>\<open>monthNames.forEach((m, i) => { map[m] = rawValues[i] || '' })\<close>\<close>

fun buildMap :: "string list \<Rightarrow> string list \<Rightarrow> nat \<Rightarrow> (string \<rightharpoonup> string) \<Rightarrow> (string \<rightharpoonup> string)" where
  "buildMap [] rawValues i mp = mp"
| "buildMap (m # ms) rawValues i mp =
     buildMap ms rawValues (i + 1) (mp(m \<mapsto> (if i < length rawValues then rawValues ! i else [])))"

text \<open>
  The function from the header texts and the link texts of the grid on; the
  wait for the grid, which throws when it never shows, comes before.
\<close>

definition scrapeMonthlyActiveEnergy :: "string list \<Rightarrow> string list \<Rightarrow> monthsData" where
  "scrapeMonthlyActiveEnergy monthNames rawValues =
     (let mp = buildMap monthNames rawValues 0 Map.empty
      in \<lparr>raw = mp, parsed = (\<lambda>m. map_option parseMonthlyValue (mp m)), months = monthNames\<rparr>)"

text \<open>
  The loop \<open>for (let i = months.length - 1; i >= 0; i--)\<close> of
  \<open>findLatestNonNullMonthAndClick\<close>: \<open>scanBack md n\<close> has the indices
  below \<open>n\<close> still to visit and returns \<open>(lastNonNullMonth, lastNonNullIndex)\<close>,
  \<open>None\<close> for \<open>(null, -1)\<close>.
\<close>

fun scanBack :: "monthsData \<Rightarrow> nat \<Rightarrow> (string \<times> nat) option" where
  "scanBack md 0 = None"
| "scanBack md (Suc i) =
     (let monthName = months md ! i
      in case parsed md monthName of
           Some (Some v) \<Rightarrow> Some (monthName, i)
         | _ \<Rightarrow> scanBack md i)"

definition findLatestNonNullMonth :: "monthsData \<Rightarrow> (string \<times> nat) option" where
  "findLatestNonNullMonth md = scanBack md (length (months md))"

text \<open>
  The whole function: \<open>anchorCount\<close> is the number of month links the page
  has when the click is tried, \<open>None\<close> when the grid is gone; the result is
  the month name, \<open>None\<close> for \<open>false\<close>.
\<close>

definition findLatestNonNullMonthAndClick :: "nat option \<Rightarrow> monthsData \<Rightarrow> string option" where
  "findLatestNonNullMonthAndClick anchorCount md =
     (case findLatestNonNullMonth md of
        None \<Rightarrow> None
      | Some (lastNonNullMonth, lastNonNullIndex) \<Rightarrow>
          (case anchorCount of
             None \<Rightarrow> None
           | Some n \<Rightarrow> if lastNonNullIndex \<ge> n then None else Some lastNonNullMonth))"

section \<open>Dates\<close>

text \<open>
  A \<open>Date\<close> is its time value, milliseconds since the epoch, or invalid
  (\<open>None\<close>). Local time is UTC plus \<open>tz\<close> minutes; the offset of the
  process's time zone is taken as constant, changes of daylight saving time are
  not modelled. The day arithmetic is that of the language standard.
\<close>

definition msPerDay :: int where
  "msPerDay = 86400000"

definition InLeapYear :: "int \<Rightarrow> bool" where
  "InLeapYear y = ((y mod 4 = 0 \<and> y mod 100 \<noteq> 0) \<or> y mod 400 = 0)"

definition DayFromYear :: "int \<Rightarrow> int" where
  "DayFromYear y = 365 * (y - 1970) + (y - 1969) div 4 - (y - 1901) div 100 + (y - 1601) div 400"

text \<open>Days of the year before month \<open>mn\<close>, counted from 0.\<close>

definition monthStart :: "int \<Rightarrow> int \<Rightarrow> int" where
  "monthStart y mn =
     [0, 31, 59, 90, 120, 151, 181, 212, 243, 273, 304, 334] ! nat mn
       + (if 2 \<le> mn \<and> InLeapYear y then 1 else 0)"

definition DaysInMonth :: "int \<Rightarrow> int \<Rightarrow> int" where
  "DaysInMonth y mn =
     (if mn = 1 then (if InLeapYear y then 29 else 28)
      else [31, 28, 31, 30, 31, 30, 31, 31, 30, 31, 30, 31] ! nat mn)"

text \<open>\<open>MakeDay\<close>: a month outside 0..11 carries into the year, a day outside the month into the neighbouring months.\<close>

definition MakeDay :: "int \<Rightarrow> int \<Rightarrow> int \<Rightarrow> int" where
  "MakeDay y m dt =
     (let ym = y + m div 12; mn = m mod 12
      in DayFromYear ym + monthStart ym mn + dt - 1)"

text \<open>\<open>new Date(y, m, d)\<close>: local midnight; a year from 0 to 99 means 1900 + y.\<close>

definition newDateYMD :: "int \<Rightarrow> int \<Rightarrow> int \<Rightarrow> int \<Rightarrow> int" where
  "newDateYMD tz y m d =
     (let yr = (if 0 \<le> y \<and> y \<le> 99 then 1900 + y else y)
      in MakeDay yr m d * msPerDay - tz * 60000)"

text \<open>\<open>/^\d{2}[/.]\d{2}[/.]\d{4}$/\<close> and \<open>/^\d{4}-\d{2}-\d{2}$/\<close>\<close>

definition isSep :: "char \<Rightarrow> bool" where
  "isSep c = (c = CHR ''/'' \<or> c = CHR ''.'')"

definition matchesDMY :: "string \<Rightarrow> bool" where
  "matchesDMY s =
     (length s = 10 \<and> list_all isDigit (take 2 s) \<and> isSep (s ! 2)
      \<and> list_all isDigit (take 2 (drop 3 s)) \<and> isSep (s ! 5)
      \<and> list_all isDigit (drop 6 s))"

definition matchesISO :: "string \<Rightarrow> bool" where
  "matchesISO s =
     (length s = 10 \<and> list_all isDigit (take 4 s) \<and> s ! 4 = CHR ''-''
      \<and> list_all isDigit (take 2 (drop 5 s)) \<and> s ! 7 = CHR ''-''
      \<and> list_all isDigit (drop 8 s))"

text \<open>
  \<open>new Date(string)\<close>. The standard fixes the date-only form
  \<open>YYYY-MM-DD\<close> with a month from 01 to 12 and a day of that month: it is
  midnight UTC. What an engine makes of any other string is its own choice and
  is the parameter \<open>native\<close>.
\<close>

definition Date_parse :: "(string \<Rightarrow> int option) \<Rightarrow> string \<Rightarrow> int option" where
  "Date_parse native s =
     (if matchesISO s then
        (let y = int (digitsValue (take 4 s));
             m = int (digitsValue (take 2 (drop 5 s)));
             d = int (digitsValue (drop 8 s))
         in if 1 \<le> m \<and> m \<le> 12 \<and> 1 \<le> d \<and> d \<le> DaysInMonth y (m - 1)
            then Some (MakeDay y (m - 1) d * msPerDay)
            else native s)
      else native s)"

text \<open>
  The \<open>try\<close> block at the head of the loop over the days in
  \<open>saveDailyHourlyData\<close>: the timestamp of the day, \<open>None\<close> where the
  code warns and goes on to the next day.
\<close>

definition parseSourceDate :: "int \<Rightarrow> (string \<Rightarrow> int option) \<Rightarrow> string \<Rightarrow> int option" where
  "parseSourceDate tz native dateStr =
     (if matchesDMY dateStr then
        (let d = int (digitsValue (take 2 dateStr));
             m = int (digitsValue (take 2 (drop 3 dateStr)));
             y = int (digitsValue (drop 6 dateStr))
         in Some (newDateYMD tz y (m - 1) d))
      else if matchesISO dateStr then Date_parse native dateStr
      else Date_parse native dateStr)"

text \<open>\<open>setHours(h, 0, 0, 0)\<close> on a copy: hour \<open>h\<close> of the same local day.\<close>

definition localDay :: "int \<Rightarrow> int \<Rightarrow> int" where
  "localDay tz t = (t + tz * 60000) div msPerDay"

definition setHours :: "int \<Rightarrow> int \<Rightarrow> nat \<Rightarrow> int" where
  "setHours tz t h = localDay tz t * msPerDay + int h * 3600000 - tz * 60000"

section \<open>The store\<close>

text \<open>
  A row of \<open>daily_hourly_consumption\<close> without its key columns; the table
  maps the primary key \<open>(timestamp, hour)\<close> to the row, so no key has two
  rows.
\<close>

record row =
  kwh :: rat
  month_name :: "string option"
  source_date :: string
  created_at :: int
  updated_at :: int

type_synonym table = "int \<times> nat \<rightharpoonup> row"

text \<open>
  The database as the one client of \<open>saveDailyHourlyData\<close> sees it: the
  committed table, the table of the open transaction if one is open, and the
  number of queries sent so far. Other sessions of the database are not
  modelled.
\<close>

record conn =
  committed :: table
  pending :: "table option"
  issued :: nat

datatype dbError = QueryFailed nat

text \<open>
  What is outside the function: which queries throw (by their number),
  the offset of the local time zone in minutes, the engine's date parser, and
  the time \<open>NOW()\<close> gives, which the database holds fixed for a transaction.
\<close>

record env =
  queryFails :: "nat \<Rightarrow> bool"
  tzOffset :: int
  nativeParse :: "string \<Rightarrow> int option"
  txNow :: int

definition HOURS_PER_DAY :: nat where
  "HOURS_PER_DAY = 24"

definition visible :: "conn \<Rightarrow> table" where
  "visible c = (case pending c of None \<Rightarrow> committed c | Some w \<Rightarrow> w)"

text \<open>A statement that changes the table: inside a transaction it changes the pending table only.\<close>

definition writeTable :: "table \<Rightarrow> conn \<Rightarrow> conn" where
  "writeTable t c = (case pending c of None \<Rightarrow> c\<lparr>committed := t\<rparr> | Some w \<Rightarrow> c\<lparr>pending := Some t\<rparr>)"

definition execBegin :: "conn \<Rightarrow> conn" where
  "execBegin c = c\<lparr>pending := Some (visible c)\<rparr>"

definition execCommit :: "conn \<Rightarrow> conn" where
  "execCommit c = c\<lparr>committed := visible c, pending := None\<rparr>"

definition execRollback :: "conn \<Rightarrow> conn" where
  "execRollback c = c\<lparr>pending := None\<rparr>"

text \<open>
  \<open>INSERT ... ON CONFLICT (timestamp, hour) DO UPDATE SET kwh, month_name,
  source_date, updated_at = NOW()\<close>: a new row takes both time columns from
  their default, a row in conflict keeps \<open>created_at\<close>.
\<close>

definition upsertRow :: "int \<Rightarrow> int \<times> nat \<Rightarrow> rat \<Rightarrow> string option \<Rightarrow> string \<Rightarrow> table \<Rightarrow> table" where
  "upsertRow now k v mn ds t =
     (case t k of
        None \<Rightarrow> t(k \<mapsto> \<lparr>kwh = v, month_name = mn, source_date = ds, created_at = now, updated_at = now\<rparr>)
      | Some r \<Rightarrow> t(k \<mapsto> r\<lparr>kwh := v, month_name := mn, source_date := ds, updated_at := now\<rparr>))"

definition execUpsert :: "int \<Rightarrow> int \<times> nat \<Rightarrow> rat \<Rightarrow> string option \<Rightarrow> string \<Rightarrow> conn \<Rightarrow> conn" where
  "execUpsert now k v mn ds c = writeTable (upsertRow now k v mn ds (visible c)) c"

text \<open>
  \<open>await client.query(...)\<close>: the query is counted; it throws, with no
  effect on the tables, or it takes effect.
\<close>

definition query :: "env \<Rightarrow> (conn \<Rightarrow> conn) \<Rightarrow> conn \<Rightarrow> dbError \<times> conn + conn" where
  "query e eff c =
     (let c' = c\<lparr>issued := issued c + 1\<rparr>
      in if queryFails e (issued c) then Inl (QueryFailed (issued c), c') else Inr (eff c'))"

text \<open>
  The body of the loop over the hours, on the state
  \<open>(client, insertedCount, updatedCount)\<close>. The \<open>SELECT\<close> changes nothing
  and its rows are read from the visible table.
\<close>

definition hourStep :: "env \<Rightarrow> string option \<Rightarrow> dayReading \<Rightarrow> int \<Rightarrow> nat \<Rightarrow> conn \<times> nat \<times> nat \<Rightarrow> dbError \<times> conn + conn \<times> nat \<times> nat" where
  "hourStep e mn day timestamp h st =
     (case st of (c, insertedCount, updatedCount) \<Rightarrow>
        (case hours day (hourLabel h) of
           None \<Rightarrow> Inr st
         | Some None \<Rightarrow> Inr st
         | Some (Some v) \<Rightarrow>
             (let recordTimestamp = setHours (tzOffset e) timestamp h
              in case query e id c of
                   Inl err \<Rightarrow> Inl err
                 | Inr c1 \<Rightarrow>
                     (let existingKwh = map_option kwh (visible c1 (recordTimestamp, h));
                          shouldUpdate = (case existingKwh of None \<Rightarrow> True | Some x \<Rightarrow> v - x > 1 / 1000)
                      in if \<not> shouldUpdate then Inr (c1, insertedCount, updatedCount)
                         else
                           (case query e (execUpsert (txNow e) (recordTimestamp, h) v mn (date day)) c1 of
                              Inl err \<Rightarrow> Inl err
                            | Inr c2 \<Rightarrow>
                                if existingKwh = None then Inr (c2, insertedCount + 1, updatedCount)
                                else Inr (c2, insertedCount, updatedCount + 1))))))"

fun hoursLoop :: "env \<Rightarrow> string option \<Rightarrow> dayReading \<Rightarrow> int \<Rightarrow> nat list \<Rightarrow> conn \<times> nat \<times> nat \<Rightarrow> dbError \<times> conn + conn \<times> nat \<times> nat" where
  "hoursLoop e mn day timestamp [] st = Inr st"
| "hoursLoop e mn day timestamp (h # hs) st =
     (case hourStep e mn day timestamp h st of
        Inl err \<Rightarrow> Inl err
      | Inr st' \<Rightarrow> hoursLoop e mn day timestamp hs st')"

fun daysLoop :: "env \<Rightarrow> string option \<Rightarrow> dayReading list \<Rightarrow> conn \<times> nat \<times> nat \<Rightarrow> dbError \<times> conn + conn \<times> nat \<times> nat" where
  "daysLoop e mn [] st = Inr st"
| "daysLoop e mn (day # rest) st =
     (case parseSourceDate (tzOffset e) (nativeParse e) (date day) of
        None \<Rightarrow> daysLoop e mn rest st
      | Some timestamp \<Rightarrow>
          (case hoursLoop e mn day timestamp [0 ..< HOURS_PER_DAY] st of
             Inl err \<Rightarrow> Inl err
           | Inr st' \<Rightarrow> daysLoop e mn rest st'))"

text \<open>
  The \<open>catch\<close> block: \<open>ROLLBACK\<close>, then the error is thrown on; when the
  \<open>ROLLBACK\<close> itself throws, its error is the one the caller gets.
\<close>

definition rollbackAndThrow :: "env \<Rightarrow> dbError \<times> conn \<Rightarrow> conn \<times> (dbError + nat \<times> nat)" where
  "rollbackAndThrow e ec =
     (case ec of (err, c) \<Rightarrow>
        (case query e execRollback c of
           Inl (err', c') \<Rightarrow> (c', Inl err')
         | Inr c' \<Rightarrow> (c', Inl err)))"

text \<open>
  \<open>saveDailyHourlyData\<close> once the client is connected: the new state of the
  connection and either the error thrown or
  \<open>(insertedCount, updatedCount)\<close>.
\<close>

definition saveDailyHourlyData :: "env \<Rightarrow> conn \<Rightarrow> dailyData \<Rightarrow> conn \<times> (dbError + nat \<times> nat)" where
  "saveDailyHourlyData e c dailyData =
     (case query e execBegin c of
        Inl ec \<Rightarrow> rollbackAndThrow e ec
      | Inr c1 \<Rightarrow>
          (case daysLoop e (month dailyData) (days dailyData) (c1, 0, 0) of
             Inl ec \<Rightarrow> rollbackAndThrow e ec
           | Inr (c2, insertedCount, updatedCount) \<Rightarrow>
               (case query e execCommit c2 of
                  Inl ec \<Rightarrow> rollbackAndThrow e ec
                | Inr c3 \<Rightarrow> (c3, Inr (insertedCount, updatedCount)))))"

section \<open>Reading the results\<close>

text \<open>
  What a slot of \<open>hours\<close> counts for in a total: its number, and nothing
  when it is \<open>null\<close> or absent.
\<close>

definition cellValue :: "rat option option \<Rightarrow> rat" where
  "cellValue x = (case x of Some (Some v) \<Rightarrow> v | _ \<Rightarrow> 0)"

text \<open>
  The readings a batch presents to the store, in the order of the two loops:
  key, value and the day's date text, for every slot that holds a number on a
  day whose date could be read.
\<close>

type_synonym item = "(int \<times> nat) \<times> rat \<times> string"

definition hourItems :: "int \<Rightarrow> dayReading \<Rightarrow> int \<Rightarrow> nat \<Rightarrow> item list" where
  "hourItems tz day timestamp h =
     (case hours day (hourLabel h) of
        Some (Some v) \<Rightarrow> [((setHours tz timestamp h, h), v, date day)]
      | _ \<Rightarrow> [])"

definition dayItems :: "int \<Rightarrow> (string \<Rightarrow> int option) \<Rightarrow> dayReading \<Rightarrow> item list" where
  "dayItems tz native day =
     (case parseSourceDate tz native (date day) of
        None \<Rightarrow> []
      | Some timestamp \<Rightarrow> concat (map (hourItems tz day timestamp) [0 ..< HOURS_PER_DAY]))"

definition batchItems :: "int \<Rightarrow> (string \<Rightarrow> int option) \<Rightarrow> dayReading list \<Rightarrow> item list" where
  "batchItems tz native ds = concat (map (dayItems tz native) ds)"

text \<open>
  What one reading does to a table and the two counters when the queries for
  it go through: the effect of \<open>hourStep\<close> seen from the table.
\<close>

definition applyItem :: "int \<Rightarrow> string option \<Rightarrow> item \<Rightarrow> table \<times> nat \<times> nat \<Rightarrow> table \<times> nat \<times> nat" where
  "applyItem now mn it s =
     (case it of (k, v, ds) \<Rightarrow>
        (case s of (t, i, u) \<Rightarrow>
           (case t k of
              None \<Rightarrow> (upsertRow now k v mn ds t, i + 1, u)
            | Some r \<Rightarrow>
                if v - kwh r > 1 / 1000 then (upsertRow now k v mn ds t, i, u + 1)
                else (t, i, u))))"

text \<open>
  A part of a run inside the open transaction, from \<open>st\<close> to the outcome
  \<open>res\<close>, that handles the readings \<open>its\<close>: the committed table stays;
  when no query threw, the pending table and the counters are those the
  readings give, and none of the queries sent was one that throws.
\<close>

definition runsAs :: "env \<Rightarrow> string option \<Rightarrow> item list \<Rightarrow> conn \<times> nat \<times> nat \<Rightarrow> dbError \<times> conn + conn \<times> nat \<times> nat \<Rightarrow> bool" where
  "runsAs e mn its st res =
     (case st of (c, i, u) \<Rightarrow>
        (case res of
           Inl (err, c') \<Rightarrow>
             committed c' = committed c \<and> pending c' \<noteq> None \<and> queryFails e (issued c' - 1)
             \<and> issued c < issued c'
         | Inr (c', i', u') \<Rightarrow>
             committed c' = committed c \<and> issued c \<le> issued c'
             \<and> (\<forall>n. issued c \<le> n \<and> n < issued c' \<longrightarrow> \<not> queryFails e n)
             \<and> (case pending c of
                  None \<Rightarrow> False
                | Some w \<Rightarrow> pending c' = Some (fst (fold (applyItem (txNow e) mn) its (w, i, u)))
                    \<and> (i', u') = snd (fold (applyItem (txNow e) mn) its (w, i, u)))))"

text \<open>
  A reading is settled in a table that has a row for its key which the reading
  would not overwrite.
\<close>

definition settled :: "table \<Rightarrow> item \<Rightarrow> bool" where
  "settled t it =
     (case it of (k, v, ds) \<Rightarrow>
        (case t k of None \<Rightarrow> False | Some r \<Rightarrow> \<not> v - kwh r > 1 / 1000))"

section \<open>Properties of the normalisers\<close>

lemmas number_eval =
  normalizeNumber_def parseMonthlyValue_def parseFloat_def strDecimalPrefix_def roundDouble_def
  overflowThreshold_def isDigit_def digitsValue_def digitValue_def Let_def

lemma overflowThreshold_pos: "0 < overflowThreshold"
proof -
  have "(2::rat) ^ 970 < 2 ^ 1024" by (rule power_strict_increasing) simp_all
  then show ?thesis by (simp add: overflowThreshold_def)
qed

lemma finiteOrNull_roundDouble:
  "finiteOrNull (Some (roundDouble v)) = Some w \<Longrightarrow> w = v \<and> \<bar>v\<bar> < overflowThreshold"
  using overflowThreshold_pos by (auto simp: roundDouble_def split: if_splits)

lemma finiteOrNull_parseFloat:
  "finiteOrNull (Some (parseFloat s)) = Some w \<Longrightarrow> strDecimalPrefix s = Some w \<and> \<bar>w\<bar> < overflowThreshold"
  by (auto simp: parseFloat_def split: option.splits dest: finiteOrNull_roundDouble)












lemma strDecimalPrefix_unsigned:
  "CHR ''-'' \<notin> set s \<Longrightarrow> strDecimalPrefix s = Some v \<Longrightarrow> 0 \<le> v"
  by (cases s) (auto simp: strDecimalPrefix_def Let_def split: if_splits)

lemma parseMonthlyValue_nonneg:
  assumes "parseMonthlyValue s = Some v"
  shows "0 \<le> v"
proof -
  let ?n = "filter (\<lambda>c. isDigit c \<or> c = CHR ''.'')
              (replaceFirst CHR '','' CHR ''.'' (filter (\<lambda>c. c \<noteq> CHR ''.'') s))"
  have nm: "CHR ''-'' \<notin> set ?n" by (auto simp: isDigit_def)
  from assms have "finiteOrNull (Some (parseFloat ?n)) = Some v"
    by (auto simp: parseMonthlyValue_def Let_def split: if_splits)
  then have "strDecimalPrefix ?n = Some v" by (auto dest: finiteOrNull_parseFloat)
  with nm show ?thesis by (rule strDecimalPrefix_unsigned)
qed




section \<open>Properties of the extraction\<close>

subsection \<open>The backward scan\<close>

lemma scanBack_Some:
  "scanBack md n = Some (m, i) \<Longrightarrow>
     i < n \<and> months md ! i = m \<and> (\<exists>v. parsed md m = Some (Some v))
     \<and> (\<forall>j. i < j \<and> j < n \<longrightarrow> parsed md (months md ! j) \<in> {None, Some None})"
proof (induction n)
  case 0
  then show ?case by simp
next
  case (Suc n)
  show ?case
  proof (cases "parsed md (months md ! n) \<in> {None, Some None}")
    case True
    with Suc.prems have "scanBack md n = Some (m, i)" by (auto simp: Let_def)
    from Suc.IH [OF this] True show ?thesis by (auto simp: less_Suc_eq)
  next
    case False
    then obtain v where "parsed md (months md ! n) = Some (Some v)" by auto
    with Suc.prems show ?thesis by (auto simp: Let_def)
  qed
qed

lemma scanBack_None:
  "scanBack md n = None \<longleftrightarrow> (\<forall>j<n. parsed md (months md ! j) \<in> {None, Some None})"
  by (induction n) (auto simp: Let_def less_Suc_eq split: option.splits)

subsection \<open>Hour labels\<close>

lemma digit_nth_inject:
  "a < 10 \<Longrightarrow> b < 10 \<Longrightarrow> ''0123456789'' ! a = ''0123456789'' ! b \<Longrightarrow> a = b"
proof -
  have "distinct ''0123456789''" by simp
  moreover have "length ''0123456789'' = 10" by simp
  ultimately show "a < 10 \<Longrightarrow> b < 10 \<Longrightarrow> ''0123456789'' ! a = ''0123456789'' ! b \<Longrightarrow> a = b"
    by (metis nth_eq_iff_index_eq)
qed

lemma hourLabel_inject:
  assumes "h < 100" "h' < 100" "hourLabel h = hourLabel h'"
  shows "h = h'"
proof -
  from assms have "h div 10 < 10" "h' div 10 < 10" "h mod 10 < 10" "h' mod 10 < 10" by auto
  moreover from assms(3) have "''0123456789'' ! (h div 10) = ''0123456789'' ! (h' div 10)"
    "''0123456789'' ! (h mod 10) = ''0123456789'' ! (h' mod 10)"
    by (simp_all add: hourLabel_def)
  ultimately have "h div 10 = h' div 10" "h mod 10 = h' mod 10"
    by (blast intro: digit_nth_inject)+
  then show ?thesis by (metis div_mult_mod_eq)
qed

subsection \<open>The loop over the cells of a row\<close>

lemma hourCellsLoop_result:
  "hourCellsLoop vals hs (hrs, tot, n) =
     (fold (\<lambda>h m. m(hourLabel h \<mapsto> normalizeNumber (vals ! h))) hs hrs,
      tot + (\<Sum>h\<leftarrow>hs. cellValue (Some (normalizeNumber (vals ! h)))),
      n + length (filter (\<lambda>h. normalizeNumber (vals ! h) \<noteq> None) hs))"
  by (induction hs arbitrary: hrs tot n) (auto simp: Let_def cellValue_def split: option.splits)

lemma fold_label_dom:
  "dom (fold (\<lambda>h m. m(hourLabel h \<mapsto> f h)) hs hrs) = dom hrs \<union> hourLabel ` set hs"
  by (induction hs arbitrary: hrs) auto

lemma fold_label_other:
  "k \<notin> hourLabel ` set hs \<Longrightarrow> fold (\<lambda>h m. m(hourLabel h \<mapsto> f h)) hs hrs k = hrs k"
  by (induction hs arbitrary: hrs) auto

lemma fold_label_at:
  "distinct hs \<Longrightarrow> \<forall>x\<in>set hs. x < 100 \<Longrightarrow> h \<in> set hs \<Longrightarrow>
     fold (\<lambda>h m. m(hourLabel h \<mapsto> f h)) hs hrs (hourLabel h) = Some (f h)"
proof (induction hs arbitrary: hrs)
  case Nil
  then show ?case by simp
next
  case (Cons a hs)
  show ?case
  proof (cases "h \<in> set hs")
    case True
    with Cons show ?thesis by simp
  next
    case False
    with Cons.prems have ha: "h = a" by simp
    have "hourLabel a \<notin> hourLabel ` set hs"
    proof
      assume "hourLabel a \<in> hourLabel ` set hs"
      then obtain b where b: "b \<in> set hs" "hourLabel a = hourLabel b" by auto
      with Cons.prems have "a = b" by (intro hourLabel_inject) auto
      with b Cons.prems show False by simp
    qed
    then have "fold (\<lambda>h m. m(hourLabel h \<mapsto> f h)) hs (hrs(hourLabel a \<mapsto> f a)) (hourLabel a)
        = (hrs(hourLabel a \<mapsto> f a)) (hourLabel a)"
      by (rule fold_label_other)
    then show ?thesis by (simp add: ha fun_upd_same del: fun_upd_apply)
  qed
qed


lemma hourLabel_range_image:
  "n \<le> 24 \<Longrightarrow> h < 24 \<Longrightarrow> hourLabel h \<in> hourLabel ` {0..<n} \<longleftrightarrow> h < n"
proof
  assume n: "n \<le> 24" and h: "h < 24" and "hourLabel h \<in> hourLabel ` {0..<n}"
  then obtain b where b: "b < n" "hourLabel h = hourLabel b" by auto
  with n h have "h = b" by (intro hourLabel_inject) auto
  with b show "h < n" by simp
qed auto

lemma filter_less_upt: "n \<le> m \<Longrightarrow> filter (\<lambda>h. h < n) [0..<m] = [0..<n]"
proof (induction m)
  case 0
  then show ?case by simp
next
  case (Suc m)
  show ?case
  proof (cases "n = Suc m")
    case True
    then show ?thesis by (simp add: filter_id_conv)
  next
    case False
    with Suc show ?thesis by simp
  qed
qed

lemma parseDay_Some:
  assumes "parseDay r = Some d"
  shows "date d = dateCell r"
    and "dom (hours d) = hourLabel ` {0 ..< min 24 (length (hourlyValues r))}"
    and "\<And>h. h < min 24 (length (hourlyValues r)) \<Longrightarrow>
           hours d (hourLabel h) = Some (normalizeNumber (hourlyValues r ! h))"
    and "total_kwh d = toFixed3 (\<Sum>h\<leftarrow>[0..<24]. cellValue (hours d (hourLabel h)))"
    and "\<exists>h<min 24 (length (hourlyValues r)). normalizeNumber (hourlyValues r ! h) \<noteq> None"
proof -
  let ?vals = "hourlyValues r"
  let ?n = "min 24 (length ?vals)"
  let ?hrs = "fold (\<lambda>h m. m(hourLabel h \<mapsto> normalizeNumber (?vals ! h))) [0..<?n] Map.empty"
  let ?tot = "\<Sum>h\<leftarrow>[0..<?n]. cellValue (Some (normalizeNumber (?vals ! h)))"
  from assms have d: "d = \<lparr>date = dateCell r, hours = ?hrs, total_kwh = toFixed3 ?tot\<rparr>"
    and valid: "filter (\<lambda>h. normalizeNumber (?vals ! h) \<noteq> None) [0..<?n] \<noteq> []"
    by (auto simp: parseDay_def hourCellsLoop_result split: if_splits)
  show "date d = dateCell r" by (simp add: d)
  show dom: "dom (hours d) = hourLabel ` {0 ..< ?n}" by (simp add: d fold_label_dom)
  show at: "hours d (hourLabel h) = Some (normalizeNumber (?vals ! h))" if "h < ?n" for h
    using that by (simp add: d fold_label_at)
  have cv: "cellValue (hours d (hourLabel h)) = (if h < ?n then cellValue (Some (normalizeNumber (?vals ! h))) else 0)"
    if "h < 24" for h
  proof (cases "h < ?n")
    case True
    then show ?thesis by (simp add: at)
  next
    case False
    with that have "hourLabel h \<notin> hourLabel ` {0..<?n}"
      by (simp add: hourLabel_range_image)
    then have "hours d (hourLabel h) = None" using dom by blast
    with False that show ?thesis by (simp add: cellValue_def)
  qed
  have "map (\<lambda>h. cellValue (hours d (hourLabel h))) [0..<24]
      = map (\<lambda>h. if h < ?n then cellValue (Some (normalizeNumber (?vals ! h))) else 0) [0..<24]"
    by (rule map_cong [OF refl]) (use cv in auto)
  then have "(\<Sum>h\<leftarrow>[0..<24]. cellValue (hours d (hourLabel h)))
      = (\<Sum>h\<leftarrow>[0..<24]. if h < ?n then cellValue (Some (normalizeNumber (?vals ! h))) else 0)"
    by (rule arg_cong)
  also have "\<dots> = (\<Sum>h\<leftarrow>filter (\<lambda>h. h < ?n) [0..<24]. cellValue (Some (normalizeNumber (?vals ! h))))"
    by (simp add: sum_list_map_filter')
  also have "filter (\<lambda>h. h < ?n) [0..<24] = [0..<?n]"
    by (rule filter_less_upt) simp
  finally show "total_kwh d = toFixed3 (\<Sum>h\<leftarrow>[0..<24]. cellValue (hours d (hourLabel h)))"
    by (simp add: d)
  from valid show "\<exists>h<?n. normalizeNumber (?vals ! h) \<noteq> None"
    by (auto simp: filter_empty_conv)
qed

lemma parseDay_None:
  "parseDay r = None \<longleftrightarrow> (\<forall>h<min 24 (length (hourlyValues r)). normalizeNumber (hourlyValues r ! h) = None)"
  by (auto simp: parseDay_def hourCellsLoop_result filter_empty_conv split: if_splits)

lemma parseDays_append: "parseDays (xs @ ys) = parseDays xs @ parseDays ys"
  by (induction xs) (auto split: option.splits)

lemma parseDays_member:
  "d \<in> set (parseDays rs) \<Longrightarrow> \<exists>r\<in>set rs. parseDay r = Some d"
  by (induction rs) (auto split: option.splits)
subsection \<open>Claims on the extraction\<close>

text \<open>
  Claim C6. The scan returns the entry with the greatest index whose parsed
  value is a number, with that index: \<open>(Jan, 0)\<close> for
  \<open>[Jan: 5.0, Feb: null, Mar: null]\<close>, \<open>(Feb, 1)\<close> for
  \<open>[Jan: null, Feb: 0.0]\<close> (a zero is a reading), and nothing when no month
  has a number.
\<close>

theorem selectLatest_scan:
  "findLatestNonNullMonth
      \<lparr>raw = Map.empty, parsed = [''Jan'' \<mapsto> Some 5, ''Feb'' \<mapsto> None, ''Mar'' \<mapsto> None],
       months = [''Jan'', ''Feb'', ''Mar'']\<rparr> = Some (''Jan'', 0)
   \<and> findLatestNonNullMonth
      \<lparr>raw = Map.empty, parsed = [''Jan'' \<mapsto> None, ''Feb'' \<mapsto> Some 0],
       months = [''Jan'', ''Feb'']\<rparr> = Some (''Feb'', 1)
   \<and> (\<forall>md. (\<forall>j<length (months md). parsed md (months md ! j) \<in> {None, Some None})
          \<longleftrightarrow> findLatestNonNullMonth md = None)
   \<and> (\<forall>md m i. findLatestNonNullMonth md = Some (m, i) \<longrightarrow>
          i < length (months md) \<and> months md ! i = m \<and> (\<exists>v. parsed md m = Some (Some v))
          \<and> (\<forall>j. i < j \<and> j < length (months md) \<longrightarrow> parsed md (months md ! j) \<in> {None, Some None}))"
proof -
  have a: "findLatestNonNullMonth
      \<lparr>raw = Map.empty, parsed = [''Jan'' \<mapsto> Some 5, ''Feb'' \<mapsto> None, ''Mar'' \<mapsto> None],
       months = [''Jan'', ''Feb'', ''Mar'']\<rparr> = Some (''Jan'', 0)"
    by (simp add: findLatestNonNullMonth_def numeral_3_eq_3)
  have b: "findLatestNonNullMonth
      \<lparr>raw = Map.empty, parsed = [''Jan'' \<mapsto> None, ''Feb'' \<mapsto> Some 0],
       months = [''Jan'', ''Feb'']\<rparr> = Some (''Feb'', 1)"
    by (simp add: findLatestNonNullMonth_def numeral_2_eq_2)
  have c: "(\<forall>j<length (months md). parsed md (months md ! j) \<in> {None, Some None})
          \<longleftrightarrow> findLatestNonNullMonth md = None" for md
    unfolding findLatestNonNullMonth_def scanBack_None ..
  have d: "i < length (months md) \<and> months md ! i = m \<and> (\<exists>v. parsed md m = Some (Some v))
          \<and> (\<forall>j. i < j \<and> j < length (months md) \<longrightarrow> parsed md (months md ! j) \<in> {None, Some None})"
    if "findLatestNonNullMonth md = Some (m, i)" for md m i
    using that unfolding findLatestNonNullMonth_def by (rule scanBack_Some)
  show ?thesis using a b c d by blast
qed

theorem selectLatest_scan_witness:
  "findLatestNonNullMonth
      \<lparr>raw = Map.empty, parsed = [''Gen'' \<mapsto> Some 3, ''Feb'' \<mapsto> Some 7, ''Mar'' \<mapsto> None],
       months = [''Gen'', ''Feb'', ''Mar'']\<rparr> = Some (''Feb'', 1)
   \<and> (1 :: nat) < length [''Gen'', ''Feb'', ''Mar'']
   \<and> [''Gen'', ''Feb'', ''Mar''] ! 1 = ''Feb''
   \<and> findLatestNonNullMonth \<lparr>raw = Map.empty, parsed = Map.empty, months = [''Gen'']\<rparr> = None"
proof -
  let ?md = "\<lparr>raw = Map.empty, parsed = [''Gen'' \<mapsto> Some 3, ''Feb'' \<mapsto> Some 7, ''Mar'' \<mapsto> None],
       months = [''Gen'', ''Feb'', ''Mar'']\<rparr>"
  let ?me = "\<lparr>raw = Map.empty, parsed = Map.empty, months = [''Gen'']\<rparr> :: monthsData"
  note t = selectLatest_scan
  have e: "findLatestNonNullMonth ?md = Some (''Feb'', 1)"
    by (simp add: findLatestNonNullMonth_def numeral_3_eq_3)
  from t e have "1 < length (months ?md) \<and> months ?md ! 1 = ''Feb''" by blast
  moreover have "\<forall>j<length (months ?me). parsed ?me (months ?me ! j) \<in> {None, Some None}" by simp
  with t have "findLatestNonNullMonth ?me = None" by blast
  ultimately show ?thesis using e by simp
qed


lemmas scrape_eval =
  scrapeDailyHourlyUsage_def scrapeYear_def parseDay_def hourLabel_def toFixed3_def cellValue_def
  upt_rec Let_def

lemma floor_rat_numeral:
  "\<lfloor>numeral a / numeral b :: rat\<rfloor> = numeral a div numeral b"
  by (metis floor_divide_of_int_eq of_int_numeral)




text \<open>
  Claim C9. A row none of whose value cells normalises to a number adds no day
  to the batch: the days are those of the table without the row. Every day of
  a batch has a number in one of its 24 slots at least.
\<close>

theorem all_null_day_omitted:
  "((\<forall>v\<in>set (hourlyValues r). normalizeNumber v = None) \<longrightarrow>
      parseDay r = None
      \<and> map_option days (scrapeDailyHourlyUsage currentYear (Inr (rs1 @ r # rs2)) monthName)
          = map_option days (scrapeDailyHourlyUsage currentYear (Inr (rs1 @ rs2)) monthName))
   \<and> (scrapeDailyHourlyUsage currentYear (Inr rows) monthName = Some b \<and> d \<in> set (days b) \<longrightarrow>
        (\<exists>h<24. \<exists>v. hours d (hourLabel h) = Some (Some v)))"
proof (intro conjI impI)
  assume a: "\<forall>v\<in>set (hourlyValues r). normalizeNumber v = None"
  then show n: "parseDay r = None"
    unfolding parseDay_None by simp
  then have "parseDays (rs1 @ r # rs2) = parseDays (rs1 @ rs2)"
    by (simp add: parseDays_append)
  then show "map_option days (scrapeDailyHourlyUsage currentYear (Inr (rs1 @ r # rs2)) monthName)
          = map_option days (scrapeDailyHourlyUsage currentYear (Inr (rs1 @ rs2)) monthName)"
    by (simp add: scrapeDailyHourlyUsage_def)
next
  assume "scrapeDailyHourlyUsage currentYear (Inr rows) monthName = Some b \<and> d \<in> set (days b)"
  then have "d \<in> set (parseDays rows)" by (auto simp: scrapeDailyHourlyUsage_def)
  then obtain r where r: "parseDay r = Some d" by (blast dest: parseDays_member)
  from parseDay_Some(5) [OF r] obtain h v
    where h: "h < min 24 (length (hourlyValues r))" "normalizeNumber (hourlyValues r ! h) = Some v"
    by auto
  with parseDay_Some(3) [OF r] have "hours d (hourLabel h) = Some (Some v)" by simp
  with h(1) show "\<exists>h<24. \<exists>v. hours d (hourLabel h) = Some (Some v)" by auto
qed

theorem all_null_day_omitted_witness:
  "normalizeNumber ''-'' = None \<and> normalizeNumber [] = None \<and> normalizeNumber ''N/A'' = None
   \<and> normalizeNumber ''n.d.'' = None
   \<and> scrapeDailyHourlyUsage 2026
       (Inr [\<lparr>dateCell = ''01/11/2025'', hourlyValues = [''1,00'']\<rparr>,
             \<lparr>dateCell = ''02/11/2025'', hourlyValues = [''-'', [], ''N/A'', ''n.d.'']\<rparr>]) None
     = Some \<lparr>year = 2025, month = None,
         days = [\<lparr>date = ''01/11/2025'', hours = [''00:00'' \<mapsto> Some 1], total_kwh = 1\<rparr>]\<rparr>
   \<and> (\<exists>h<24. \<exists>v. [''00:00'' \<mapsto> Some (1 :: rat)] (hourLabel h) = Some (Some v))"
proof -
  let ?r1 = "\<lparr>dateCell = ''01/11/2025'', hourlyValues = [''1,00'']\<rparr>"
  let ?r = "\<lparr>dateCell = ''02/11/2025'', hourlyValues = [''-'', [], ''N/A'', ''n.d.'']\<rparr>"
  let ?b = "\<lparr>year = 2025, month = None,
         days = [\<lparr>date = ''01/11/2025'', hours = [''00:00'' \<mapsto> Some 1], total_kwh = 1\<rparr>]\<rparr>"
  have h: "\<forall>v\<in>set (hourlyValues ?r). normalizeNumber v = None"
    by (simp add: number_eval)
  have one: "scrapeDailyHourlyUsage 2026 (Inr ([?r1] @ [])) None = Some ?b"
    by (simp add: scrape_eval number_eval floor_rat_numeral)
  from h all_null_day_omitted [of ?r 2026 "[?r1]" "[]" None]
  have "map_option days (scrapeDailyHourlyUsage 2026 (Inr ([?r1] @ ?r # [])) None)
          = map_option days (scrapeDailyHourlyUsage 2026 (Inr ([?r1] @ [])) None)"
    by blast
  then have two: "scrapeDailyHourlyUsage 2026 (Inr [?r1, ?r]) None = Some ?b"
    using one by (simp add: scrapeDailyHourlyUsage_def scrapeYear_def number_eval)
  have "\<exists>h<24. \<exists>v. hours (hd (days ?b)) (hourLabel h) = Some (Some v)"
    using all_null_day_omitted [of ?r 2026 "[]" "[]" None "[?r1, ?r]" ?b "hd (days ?b)"] two
    by simp
  with h two show ?thesis by simp
qed

section \<open>Properties of the store\<close>

subsection \<open>Queries\<close>

lemma execUpsert_pending:
  "pending c = Some w \<Longrightarrow>
     execUpsert now k v mn ds c = c\<lparr>pending := Some (upsertRow now k v mn ds w)\<rparr>"
  by (simp add: execUpsert_def writeTable_def visible_def)

lemma runsAs_refl:
  "pending c = Some w \<Longrightarrow> runsAs e mn [] (c, i, u) (Inr (c, i, u))"
  by (auto simp: runsAs_def)

lemma runsAs_trans:
  assumes "runsAs e mn xs st (Inr st')" "runsAs e mn ys st' res"
  shows "runsAs e mn (xs @ ys) st res"
proof -
  obtain c i u where st: "st = (c, i, u)" by (cases st)
  obtain c' i' u' where st': "st' = (c', i', u')" by (cases st')
  from assms(1) obtain w where w: "pending c = Some w"
    by (auto simp: runsAs_def st st' split: option.splits)
  let ?m = "fold (applyItem (txNow e) mn) xs (w, i, u)"
  from assms(1) w have a: "committed c' = committed c" "issued c \<le> issued c'"
    "\<forall>n. issued c \<le> n \<and> n < issued c' \<longrightarrow> \<not> queryFails e n"
    "pending c' = Some (fst ?m)" "(i', u') = snd ?m"
    by (auto simp: runsAs_def st st')
  from a(5) have m: "(fst ?m, i', u') = ?m" by (metis prod.collapse)
  show ?thesis
  proof (cases res)
    case (Inl ec)
    with assms(2) a show ?thesis
      by (cases ec) (auto simp: runsAs_def st st')
  next
    case (Inr s2)
    obtain c2 i2 u2 where s2: "s2 = (c2, i2, u2)" by (cases s2)
    from assms(2) a(4) have b: "committed c2 = committed c'" "issued c' \<le> issued c2"
      "\<forall>n. issued c' \<le> n \<and> n < issued c2 \<longrightarrow> \<not> queryFails e n"
      "pending c2 = Some (fst (fold (applyItem (txNow e) mn) ys (fst ?m, i', u')))"
      "(i2, u2) = snd (fold (applyItem (txNow e) mn) ys (fst ?m, i', u'))"
      by (auto simp: runsAs_def st' Inr s2)
    have "\<forall>n. issued c \<le> n \<and> n < issued c2 \<longrightarrow> \<not> queryFails e n"
      using a(3) b(3) by (metis not_le_imp_less)
    with a b w show ?thesis
      by (simp add: runsAs_def st Inr s2 m)
  qed
qed


lemma runsAs_Inl_append:
  "runsAs e mn xs st (Inl ec) \<Longrightarrow> runsAs e mn (xs @ ys) st (Inl ec)"
  by (cases st; cases ec) (simp add: runsAs_def)

lemma runsAs_pending:
  "runsAs e mn xs st (Inr (c', i', u')) \<Longrightarrow> \<exists>w'. pending c' = Some w'"
  by (cases st) (auto simp: runsAs_def split: option.splits)


subsection \<open>The loops\<close>

lemma hourStep_runsAs:
  assumes "pending c = Some w"
  shows "runsAs e mn (hourItems (tzOffset e) day ts h) (c, i, u) (hourStep e mn day ts h (c, i, u))"
proof (cases "hours day (hourLabel h)")
  case None
  with assms show ?thesis by (auto simp: hourStep_def hourItems_def runsAs_def)
next
  case (Some x)
  show ?thesis
  proof (cases x)
    case None
    with Some assms show ?thesis by (auto simp: hourStep_def hourItems_def runsAs_def)
  next
    case (Some v)
    note hv = \<open>hours day (hourLabel h) = Some x\<close> Some
    let ?k = "(setHours (tzOffset e) ts h, h)"
    let ?c1 = "c\<lparr>issued := issued c + 1\<rparr>"
    let ?c2 = "c\<lparr>issued := issued c + 2\<rparr>"
    have its: "hourItems (tzOffset e) day ts h = [(?k, v, date day)]"
      using hv by (simp add: hourItems_def)
    have vis: "visible (c\<lparr>issued := n\<rparr>) = w" for n using assms by (simp add: visible_def)
    show ?thesis
    proof (cases "queryFails e (issued c)")
      case True
      then show ?thesis
        using assms hv by (simp add: hourStep_def query_def Let_def runsAs_def)
    next
      case f1: False
      show ?thesis
      proof (cases "w ?k")
        case None
        show ?thesis
        proof (cases "queryFails e (issued c + 1)")
          case True
          then show ?thesis
            using assms hv f1 None
            by (simp add: hourStep_def query_def Let_def runsAs_def vis)
        next
          case False
          then show ?thesis
            using assms hv f1 None
            by (auto simp add: hourStep_def query_def Let_def runsAs_def vis its applyItem_def
                execUpsert_pending less_Suc_eq_le le_eq_less_or_eq)
        qed
      next
        case (Some r)
        show ?thesis
        proof (cases "v - kwh r > 1 / 1000")
          case keep: False
          then show ?thesis
            using assms hv f1 Some
            by (auto simp add: hourStep_def query_def Let_def runsAs_def vis its applyItem_def
                less_Suc_eq_le le_eq_less_or_eq)
        next
          case True
          show ?thesis
          proof (cases "queryFails e (issued c + 1)")
            case fails: True
            then show ?thesis
              using assms hv f1 Some True
              by (simp add: hourStep_def query_def Let_def runsAs_def vis)
          next
            case False
            then show ?thesis
              using assms hv f1 Some True
              by (auto simp add: hourStep_def query_def Let_def runsAs_def vis its applyItem_def
                  execUpsert_pending less_Suc_eq_le le_eq_less_or_eq)
          qed
        qed
      qed
    qed
  qed
qed

lemma hoursLoop_runsAs:
  "pending c = Some w \<Longrightarrow>
     runsAs e mn (concat (map (hourItems (tzOffset e) day ts) hs)) (c, i, u)
       (hoursLoop e mn day ts hs (c, i, u))"
proof (induction hs arbitrary: c w i u)
  case Nil
  then show ?case by (simp add: runsAs_refl)
next
  case (Cons h hs)
  have step: "runsAs e mn (hourItems (tzOffset e) day ts h) (c, i, u) (hourStep e mn day ts h (c, i, u))"
    using Cons.prems by (rule hourStep_runsAs)
  show ?case
  proof (cases "hourStep e mn day ts h (c, i, u)")
    case (Inl ec)
    with step show ?thesis by (simp add: runsAs_Inl_append)
  next
    case (Inr st')
    obtain c' i' u' where st': "st' = (c', i', u')" by (cases st')
    from step Inr st' obtain w' where "pending c' = Some w'" by (auto dest: runsAs_pending)
    from Cons.IH [OF this]
    have "runsAs e mn (concat (map (hourItems (tzOffset e) day ts) hs)) st' (hoursLoop e mn day ts hs st')"
      by (simp add: st')
    with step Inr show ?thesis by (simp add: runsAs_trans)
  qed
qed

lemma daysLoop_runsAs:
  "pending c = Some w \<Longrightarrow>
     runsAs e mn (batchItems (tzOffset e) (nativeParse e) ds) (c, i, u) (daysLoop e mn ds (c, i, u))"
proof (induction ds arbitrary: c w i u)
  case Nil
  then show ?case by (simp add: runsAs_refl batchItems_def)
next
  case (Cons day ds)
  show ?case
  proof (cases "parseSourceDate (tzOffset e) (nativeParse e) (date day)")
    case None
    with Cons show ?thesis by (simp add: batchItems_def dayItems_def)
  next
    case (Some ts)
    let ?its = "concat (map (hourItems (tzOffset e) day ts) [0 ..< HOURS_PER_DAY])"
    have its: "batchItems (tzOffset e) (nativeParse e) (day # ds)
        = ?its @ batchItems (tzOffset e) (nativeParse e) ds"
      using Some by (simp add: batchItems_def dayItems_def)
    have step: "runsAs e mn ?its (c, i, u) (hoursLoop e mn day ts [0 ..< HOURS_PER_DAY] (c, i, u))"
      using Cons.prems by (rule hoursLoop_runsAs)
    show ?thesis
    proof (cases "hoursLoop e mn day ts [0 ..< HOURS_PER_DAY] (c, i, u)")
      case (Inl ec)
      with step Some show ?thesis by (simp add: its runsAs_Inl_append)
    next
      case (Inr st')
      obtain c' i' u' where st': "st' = (c', i', u')" by (cases st')
      from step Inr st' obtain w' where "pending c' = Some w'" by (auto dest: runsAs_pending)
      from Cons.IH [OF this]
      have "runsAs e mn (batchItems (tzOffset e) (nativeParse e) ds) st' (daysLoop e mn ds st')"
        by (simp add: st')
      with step Inr Some show ?thesis by (simp add: its runsAs_trans)
    qed
  qed
qed


subsection \<open>The transaction\<close>

lemma rollbackAndThrow_result:
  "\<exists>c' x. rollbackAndThrow e (err, c1) = (c', Inl x) \<and> committed c' = committed c1
      \<and> issued c1 \<le> issued c'"
  by (cases "queryFails e (issued c1)")
    (simp_all add: rollbackAndThrow_def query_def Let_def execRollback_def)

lemma saveDailyHourlyData_result:
  fixes e c d
  defines "res \<equiv> saveDailyHourlyData e c d"
  defines "final \<equiv> fold (applyItem (txNow e) (month d))
                      (batchItems (tzOffset e) (nativeParse e) (days d)) (visible c, 0, 0)"
  shows "case snd res of
           Inl err \<Rightarrow> committed (fst res) = committed c \<and> (\<exists>n\<ge>issued c. queryFails e n)
         | Inr cnt \<Rightarrow> committed (fst res) = fst final \<and> cnt = snd final \<and> pending (fst res) = None
             \<and> (\<forall>n. issued c \<le> n \<and> n < issued (fst res) \<longrightarrow> \<not> queryFails e n)"
proof (cases "queryFails e (issued c)")
  case True
  let ?c = "c\<lparr>issued := Suc (issued c)\<rparr>"
  have q1: "query e execBegin c = Inl (QueryFailed (issued c), ?c)"
    using True by (simp add: query_def Let_def)
  obtain c' x where r: "rollbackAndThrow e (QueryFailed (issued c), ?c) = (c', Inl x)"
    "committed c' = committed ?c"
    using rollbackAndThrow_result by blast
  have "res = (c', Inl x)"
    by (simp add: res_def saveDailyHourlyData_def q1 r(1))
  with r(2) True show ?thesis by auto
next
  case begin_ok: False
  define c1 where "c1 = execBegin (c\<lparr>issued := Suc (issued c)\<rparr>)"
  have c1: "pending c1 = Some (visible c)" "committed c1 = committed c" "issued c1 = issued c + 1"
    by (simp_all add: c1_def execBegin_def visible_def split: option.splits)
  have q1: "query e execBegin c = Inr c1"
    using begin_ok by (simp add: query_def Let_def c1_def)
  have run: "runsAs e (month d) (batchItems (tzOffset e) (nativeParse e) (days d)) (c1, 0, 0)
               (daysLoop e (month d) (days d) (c1, 0, 0))"
    using c1(1) by (rule daysLoop_runsAs)
  show ?thesis
  proof (cases "daysLoop e (month d) (days d) (c1, 0, 0)")
    case (Inl ec)
    obtain err c2 where ec: "ec = (err, c2)" by (cases ec)
    from run Inl ec have c2: "committed c2 = committed c" "queryFails e (issued c2 - 1)" "issued c1 < issued c2"
      by (simp_all add: runsAs_def c1)
    obtain c' x where r: "rollbackAndThrow e (err, c2) = (c', Inl x)" "committed c' = committed c2"
      using rollbackAndThrow_result by blast
    have f: "\<exists>n\<ge>issued c. queryFails e n"
      using c2(2,3) c1(3) by (intro exI [of _ "issued c2 - 1"]) simp
    have "res = (c', Inl x)"
      by (simp add: res_def saveDailyHourlyData_def q1 Inl ec r(1))
    with r(2) c2(1) f show ?thesis by simp
  next
    case (Inr st2)
    obtain c2 i u where st2: "st2 = (c2, i, u)" by (cases st2 rule: prod_cases3)
    from run Inr st2 c1
    have c2: "committed c2 = committed c" "issued c1 \<le> issued c2"
      "\<forall>n. issued c1 \<le> n \<and> n < issued c2 \<longrightarrow> \<not> queryFails e n"
      "pending c2 = Some (fst final)" "(i, u) = snd final"
      by (simp_all add: runsAs_def final_def)
    show ?thesis
    proof (cases "queryFails e (issued c2)")
      case True
      let ?c = "c2\<lparr>issued := Suc (issued c2)\<rparr>"
      have q2: "query e execCommit c2 = Inl (QueryFailed (issued c2), ?c)"
        using True by (simp add: query_def Let_def)
      obtain c' x where r: "rollbackAndThrow e (QueryFailed (issued c2), ?c) = (c', Inl x)"
        "committed c' = committed ?c"
        using rollbackAndThrow_result by blast
      have f: "\<exists>n\<ge>issued c. queryFails e n"
        using True c2(2) c1(3) by (intro exI [of _ "issued c2"]) simp
      have "res = (c', Inl x)"
        by (simp add: res_def saveDailyHourlyData_def q1 Inr st2 q2 r(1))
      with r(2) c2(1) f show ?thesis by simp
    next
      case False
      define c3 where "c3 = execCommit (c2\<lparr>issued := Suc (issued c2)\<rparr>)"
      have c3: "committed c3 = fst final" "pending c3 = None" "issued c3 = issued c2 + 1"
        using c2(4) by (simp_all add: c3_def execCommit_def visible_def)
      have q2: "query e execCommit c2 = Inr c3"
        using False by (simp add: query_def Let_def c3_def)
      have nf: "\<not> queryFails e n" if "issued c \<le> n" "n < issued c3" for n
      proof (cases "n = issued c")
        case True
        with begin_ok show ?thesis by simp
      next
        case n1: False
        show ?thesis
        proof (cases "n = issued c2")
          case True
          with False show ?thesis by simp
        next
          case n2: False
          with n1 that c1(3) c3(3) have "issued c1 \<le> n \<and> n < issued c2" by simp
          with c2(3) show ?thesis by blast
        qed
      qed
      have "res = (c3, Inr (i, u))"
        by (simp add: res_def saveDailyHourlyData_def q1 Inr st2 q2)
      with c3 c2(5) nf show ?thesis by simp
    qed
  qed
qed

subsection \<open>Readings against a table\<close>

lemma applyItem_monotone:
  "t k = Some r \<Longrightarrow> \<exists>r'. fst (applyItem now mn it (t, i, u)) k = Some r' \<and> kwh r \<le> kwh r'"
  by (cases it) (auto simp: applyItem_def upsertRow_def split: option.splits)

lemma applyItem_settles: "settled (fst (applyItem now mn it (t, i, u))) it"
  by (cases it) (auto simp: applyItem_def upsertRow_def settled_def split: option.splits)

lemma settled_monotone:
  assumes "settled t it" "\<And>k r. t k = Some r \<Longrightarrow> \<exists>r'. t' k = Some r' \<and> kwh r \<le> kwh r'"
  shows "settled t' it"
proof -
  obtain k v ds where it: "it = (k, v, ds)" by (cases it)
  from assms(1) obtain r where r: "t k = Some r" "\<not> v - kwh r > 1 / 1000"
    by (auto simp: settled_def it split: option.splits)
  from assms(2) [OF r(1)] obtain r' where "t' k = Some r'" "kwh r \<le> kwh r'" by blast
  with r(2) show ?thesis by (simp add: settled_def it)
qed

lemma fold_applyItem_settles:
  "it \<in> set its \<Longrightarrow> settled (fst (fold (applyItem now mn) its s)) it"
proof (induction its arbitrary: it rule: rev_induct)
  case Nil
  then show ?case by simp
next
  case (snoc x xs)
  obtain t i u where f: "fold (applyItem now mn) xs s = (t, i, u)"
    by (cases "fold (applyItem now mn) xs s")
  show ?case
  proof (cases "it = x")
    case True
    then show ?thesis by (simp add: f applyItem_settles)
  next
    case False
    with snoc.prems have "it \<in> set xs" by simp
    then have "settled t it" using snoc.IH f by (metis fst_conv)
    then have "settled (fst (applyItem now mn x (t, i, u))) it"
      by (rule settled_monotone) (rule applyItem_monotone)
    then show ?thesis by (simp add: f)
  qed
qed

lemma applyItem_settled:
  "settled t it \<Longrightarrow> applyItem now mn it (t, i, u) = (t, i, u)"
  by (cases it) (auto simp: applyItem_def settled_def split: option.splits)

lemma fold_applyItem_settled:
  "\<forall>it\<in>set its. settled t it \<Longrightarrow> fold (applyItem now mn) its (t, i, u) = (t, i, u)"
  by (induction its) (simp_all add: applyItem_settled)

lemma fold_applyItem_twice:
  "fold (applyItem now' mn') its (fst (fold (applyItem now mn) its s), i, u)
     = (fst (fold (applyItem now mn) its s), i, u)"
  by (rule fold_applyItem_settled) (simp add: fold_applyItem_settles)

subsection \<open>Days that are skipped\<close>





subsection \<open>Evaluation\<close>

lemmas store_eval =
  saveDailyHourlyData_def rollbackAndThrow_def query_def execBegin_def execCommit_def execRollback_def
  execUpsert_def upsertRow_def writeTable_def visible_def hourStep_def HOURS_PER_DAY_def hourLabel_def

lemmas date_eval =
  parseSourceDate_def Date_parse_def matchesDMY_def matchesISO_def isSep_def isDigit_def
  digitsValue_def digitValue_def newDateYMD_def MakeDay_def DayFromYear_def monthStart_def
  DaysInMonth_def InLeapYear_def msPerDay_def setHours_def localDay_def

subsection \<open>Claims on the store\<close>










text \<open>
  Claim C4, as the code has it. After a successful application of a batch, a
  second application of the same batch in which no query throws returns
  \<open>{inserted: 0, updated: 0}\<close> and leaves the committed table as the first
  application left it. The table has one row for a key at most.
\<close>

theorem upsertBatch_idempotent:
  "snd (saveDailyHourlyData e c d) = Inr (n, m) \<and> (\<forall>k. \<not> queryFails e' k)
     \<and> tzOffset e' = tzOffset e \<and> nativeParse e' = nativeParse e \<longrightarrow>
   snd (saveDailyHourlyData e' (fst (saveDailyHourlyData e c d)) d) = Inr (0, 0)
   \<and> committed (fst (saveDailyHourlyData e' (fst (saveDailyHourlyData e c d)) d))
       = committed (fst (saveDailyHourlyData e c d))"
proof
  assume a: "snd (saveDailyHourlyData e c d) = Inr (n, m) \<and> (\<forall>k. \<not> queryFails e' k)
     \<and> tzOffset e' = tzOffset e \<and> nativeParse e' = nativeParse e"
  let ?its = "batchItems (tzOffset e) (nativeParse e) (days d)"
  let ?c1 = "fst (saveDailyHourlyData e c d)"
  let ?f1 = "fold (applyItem (txNow e) (month d)) ?its (visible c, 0, 0)"
  let ?f2 = "fold (applyItem (txNow e') (month d)) ?its (visible ?c1, 0, 0)"
  from saveDailyHourlyData_result [of e c d] a
  have c1: "committed ?c1 = fst ?f1" "pending ?c1 = None" by simp_all
  then have v: "visible ?c1 = fst ?f1" by (simp add: visible_def)
  have f2: "?f2 = (fst ?f1, 0, 0)" unfolding v by (rule fold_applyItem_twice)
  from saveDailyHourlyData_result [of e' ?c1 d] a
  have "case snd (saveDailyHourlyData e' ?c1 d) of
          Inl err \<Rightarrow> False
        | Inr cnt \<Rightarrow> committed (fst (saveDailyHourlyData e' ?c1 d)) = fst ?f2 \<and> cnt = snd ?f2"
    by (cases "snd (saveDailyHourlyData e' ?c1 d)") auto
  then show "snd (saveDailyHourlyData e' ?c1 d) = Inr (0, 0)
      \<and> committed (fst (saveDailyHourlyData e' ?c1 d)) = committed ?c1"
    by (cases "snd (saveDailyHourlyData e' ?c1 d)") (simp_all add: f2 c1)
qed

theorem upsertBatch_idempotent_witness:
  "snd (saveDailyHourlyData
          \<lparr>queryFails = (\<lambda>n. False), tzOffset = 60, nativeParse = (\<lambda>s. None), txNow = 1000\<rparr>
          \<lparr>committed = Map.empty, pending = None, issued = 0\<rparr>
          \<lparr>year = 2025, month = Some ''Novembre'',
           days = [\<lparr>date = ''01/11/2025'', hours = [''00:00'' \<mapsto> Some 5, ''01:00'' \<mapsto> Some 2], total_kwh = 7\<rparr>]\<rparr>)
     = Inr (2, 0)
   \<and> snd (saveDailyHourlyData
          \<lparr>queryFails = (\<lambda>n. False), tzOffset = 60, nativeParse = (\<lambda>s. None), txNow = 2000\<rparr>
          (fst (saveDailyHourlyData
             \<lparr>queryFails = (\<lambda>n. False), tzOffset = 60, nativeParse = (\<lambda>s. None), txNow = 1000\<rparr>
             \<lparr>committed = Map.empty, pending = None, issued = 0\<rparr>
             \<lparr>year = 2025, month = Some ''Novembre'',
              days = [\<lparr>date = ''01/11/2025'', hours = [''00:00'' \<mapsto> Some 5, ''01:00'' \<mapsto> Some 2], total_kwh = 7\<rparr>]\<rparr>))
          \<lparr>year = 2025, month = Some ''Novembre'',
           days = [\<lparr>date = ''01/11/2025'', hours = [''00:00'' \<mapsto> Some 5, ''01:00'' \<mapsto> Some 2], total_kwh = 7\<rparr>]\<rparr>)
     = Inr (0, 0)"
proof -
  let ?e = "\<lparr>queryFails = (\<lambda>n. False), tzOffset = 60, nativeParse = (\<lambda>s. None), txNow = 1000\<rparr>"
  let ?e' = "\<lparr>queryFails = (\<lambda>n. False), tzOffset = 60, nativeParse = (\<lambda>s. None), txNow = 2000\<rparr>"
  let ?c = "\<lparr>committed = Map.empty, pending = None, issued = 0\<rparr>"
  let ?d = "\<lparr>year = 2025, month = Some ''Novembre'',
           days = [\<lparr>date = ''01/11/2025'', hours = [''00:00'' \<mapsto> Some 5, ''01:00'' \<mapsto> Some 2], total_kwh = 7\<rparr>]\<rparr>"
  have first: "snd (saveDailyHourlyData ?e ?c ?d) = Inr (2, 0)"
    by (simp add: store_eval date_eval upt_rec Let_def)
  moreover have "(\<forall>k. \<not> queryFails ?e' k) \<and> tzOffset ?e' = tzOffset ?e \<and> nativeParse ?e' = nativeParse ?e"
    by simp
  ultimately have "snd (saveDailyHourlyData ?e' (fst (saveDailyHourlyData ?e ?c ?d)) ?d) = Inr (0, 0)"
    using upsertBatch_idempotent [where e = ?e and e' = ?e' and c = ?c and d = ?d and n = 2 and m = 0]
    by blast
  with first show ?thesis by simp
qed

text \<open>
  Claim C4 as stated fails: the first application of a one-row batch to the
  empty table returns \<open>{inserted: 1, updated: 0}\<close>, the second returns
  \<open>{inserted: 0, updated: 0}\<close>, not \<open>{inserted: 1, updated: 0}\<close>.
\<close>

theorem upsertBatch_second_count_counterexample:
  "snd (saveDailyHourlyData
          \<lparr>queryFails = (\<lambda>n. False), tzOffset = 60, nativeParse = (\<lambda>s. None), txNow = 1000\<rparr>
          \<lparr>committed = Map.empty, pending = None, issued = 0\<rparr>
          \<lparr>year = 2025, month = Some ''Novembre'',
           days = [\<lparr>date = ''01/11/2025'', hours = [''00:00'' \<mapsto> Some 5], total_kwh = 5\<rparr>]\<rparr>)
     = Inr (1, 0)
   \<and> snd (saveDailyHourlyData
          \<lparr>queryFails = (\<lambda>n. False), tzOffset = 60, nativeParse = (\<lambda>s. None), txNow = 1000\<rparr>
          (fst (saveDailyHourlyData
             \<lparr>queryFails = (\<lambda>n. False), tzOffset = 60, nativeParse = (\<lambda>s. None), txNow = 1000\<rparr>
             \<lparr>committed = Map.empty, pending = None, issued = 0\<rparr>
             \<lparr>year = 2025, month = Some ''Novembre'',
              days = [\<lparr>date = ''01/11/2025'', hours = [''00:00'' \<mapsto> Some 5], total_kwh = 5\<rparr>]\<rparr>))
          \<lparr>year = 2025, month = Some ''Novembre'',
           days = [\<lparr>date = ''01/11/2025'', hours = [''00:00'' \<mapsto> Some 5], total_kwh = 5\<rparr>]\<rparr>)
     \<noteq> Inr (1, 0)"
  by (simp add: store_eval date_eval upt_rec Let_def)


subsection \<open>Claims on dates\<close>

text \<open>
  Where local time is at or ahead of UTC by less than a day, the two source
  formats of 1 November 2025 give timestamps of the same local day, and the
  same record timestamp for every hour.
\<close>

lemma source_dates_agree_east_of_UTC:
  assumes "0 \<le> tz" "tz < 1440"
  shows "\<exists>a b. parseSourceDate tz native ''01/11/2025'' = Some a
           \<and> parseSourceDate tz native ''2025-11-01'' = Some b
           \<and> localDay tz a = MakeDay 2025 10 1 \<and> localDay tz b = MakeDay 2025 10 1
           \<and> setHours tz a h = setHours tz b h"
proof -
  have a: "parseSourceDate tz native ''01/11/2025'' = Some (1761955200000 - tz * 60000)"
    by (simp add: date_eval Let_def)
  have b: "parseSourceDate tz native ''2025-11-01'' = Some 1761955200000"
    by (simp add: date_eval Let_def)
  have d: "MakeDay 2025 10 1 = 20393" by (simp add: date_eval Let_def)
  have la: "localDay tz (1761955200000 - tz * 60000) = 20393"
    by (simp add: localDay_def msPerDay_def)
  have lb: "localDay tz 1761955200000 = 20393"
    unfolding localDay_def msPerDay_def
    using assms by (intro int_div_pos_eq [where r = "tz * 60000"]) simp_all
  show ?thesis
    using a b by (simp add: d la lb setHours_def)
qed

text \<open>
  Claim C3 fails on the code where local time is behind UTC. Five hours west,
  \<open>01/11/2025\<close> is read as local midnight of 1 November, \<open>2025-11-01\<close>
  as midnight UTC, which is 19:00 of 31 October local time; the record
  timestamps of hour 0 are a day apart, so the keys differ, and a batch that
  has the day once in each format inserts two rows for hour 0.
\<close>

theorem iso_date_previous_day_west_of_UTC:
  "parseSourceDate (- 300) native ''01/11/2025'' = Some 1761973200000
   \<and> parseSourceDate (- 300) native ''2025-11-01'' = Some 1761955200000
   \<and> localDay (- 300) 1761973200000 = MakeDay 2025 10 1
   \<and> localDay (- 300) 1761955200000 = MakeDay 2025 9 31
   \<and> setHours (- 300) 1761973200000 0 = 1761973200000
   \<and> setHours (- 300) 1761955200000 0 = 1761886800000
   \<and> snd (saveDailyHourlyData
          \<lparr>queryFails = (\<lambda>n. False), tzOffset = - 300, nativeParse = native, txNow = 1000\<rparr>
          \<lparr>committed = Map.empty, pending = None, issued = 0\<rparr>
          \<lparr>year = 2025, month = Some ''Novembre'',
           days = [\<lparr>date = ''01/11/2025'', hours = [''00:00'' \<mapsto> Some 5], total_kwh = 5\<rparr>,
                   \<lparr>date = ''2025-11-01'', hours = [''00:00'' \<mapsto> Some 5], total_kwh = 5\<rparr>]\<rparr>)
     = Inr (2, 0)"
  by (simp add: store_eval date_eval upt_rec Let_def)

text \<open>
  One hour east of UTC the same batch inserts one row: the second day finds
  the row of the first.
\<close>

lemma both_formats_one_row_east_of_UTC:
  "snd (saveDailyHourlyData
          \<lparr>queryFails = (\<lambda>n. False), tzOffset = 60, nativeParse = native, txNow = 1000\<rparr>
          \<lparr>committed = Map.empty, pending = None, issued = 0\<rparr>
          \<lparr>year = 2025, month = Some ''Novembre'',
           days = [\<lparr>date = ''01/11/2025'', hours = [''00:00'' \<mapsto> Some 5], total_kwh = 5\<rparr>,
                   \<lparr>date = ''2025-11-01'', hours = [''00:00'' \<mapsto> Some 5], total_kwh = 5\<rparr>]\<rparr>)
     = Inr (1, 0)"
  by (simp add: store_eval date_eval upt_rec Let_def)

subsection \<open>Claims across the components\<close>

text \<open>
  Claim C10. On \<open>-1,5\<close> the daily normaliser keeps the sign and gives -1.5,
  the monthly one drops it and gives 1.5; no monthly value is negative. The
  negative daily value passes into the batch and is inserted into the store.
\<close>

theorem normalisers_differ_on_sign:
  "normalizeNumber ''-1,5'' = Some (- 3 / 2) \<and> parseMonthlyValue ''-1,5'' = Some (3 / 2)
   \<and> (\<forall>s v. parseMonthlyValue s = Some v \<longrightarrow> 0 \<le> v)
   \<and> parseDays [\<lparr>dateCell = ''01/11/2025'', hourlyValues = [''-1,5'', ''2,0'']\<rparr>]
       = [\<lparr>date = ''01/11/2025'', hours = [''00:00'' \<mapsto> Some (- 3 / 2), ''01:00'' \<mapsto> Some 2],
           total_kwh = 1 / 2\<rparr>]
   \<and> saveDailyHourlyData
        \<lparr>queryFails = (\<lambda>n. False), tzOffset = 60, nativeParse = (\<lambda>s. None), txNow = 1000\<rparr>
        \<lparr>committed = Map.empty, pending = None, issued = 0\<rparr>
        \<lparr>year = 2025, month = Some ''Novembre'',
         days = [\<lparr>date = ''01/11/2025'', hours = [''00:00'' \<mapsto> Some (- 3 / 2), ''01:00'' \<mapsto> Some 2],
                  total_kwh = 1 / 2\<rparr>]\<rparr>
      = (\<lparr>committed =
            [(1761951600000, 0) \<mapsto> \<lparr>kwh = - 3 / 2, month_name = Some ''Novembre'',
               source_date = ''01/11/2025'', created_at = 1000, updated_at = 1000\<rparr>,
             (1761955200000, 1) \<mapsto> \<lparr>kwh = 2, month_name = Some ''Novembre'',
               source_date = ''01/11/2025'', created_at = 1000, updated_at = 1000\<rparr>],
          pending = None, issued = 6\<rparr>, Inr (2, 0))"
proof -
  have a: "normalizeNumber ''-1,5'' = Some (- 3 / 2)" by (simp add: number_eval)
  have b: "parseMonthlyValue ''-1,5'' = Some (3 / 2)" by (simp add: number_eval)
  have c: "parseDays [\<lparr>dateCell = ''01/11/2025'', hourlyValues = [''-1,5'', ''2,0'']\<rparr>]
       = [\<lparr>date = ''01/11/2025'', hours = [''00:00'' \<mapsto> Some (- 3 / 2), ''01:00'' \<mapsto> Some 2],
           total_kwh = 1 / 2\<rparr>]"
    by (simp add: scrape_eval number_eval floor_rat_numeral)
  have d: "saveDailyHourlyData
        \<lparr>queryFails = (\<lambda>n. False), tzOffset = 60, nativeParse = (\<lambda>s. None), txNow = 1000\<rparr>
        \<lparr>committed = Map.empty, pending = None, issued = 0\<rparr>
        \<lparr>year = 2025, month = Some ''Novembre'',
         days = [\<lparr>date = ''01/11/2025'', hours = [''00:00'' \<mapsto> Some (- 3 / 2), ''01:00'' \<mapsto> Some 2],
                  total_kwh = 1 / 2\<rparr>]\<rparr>
      = (\<lparr>committed =
            [(1761951600000, 0) \<mapsto> \<lparr>kwh = - 3 / 2, month_name = Some ''Novembre'',
               source_date = ''01/11/2025'', created_at = 1000, updated_at = 1000\<rparr>,
             (1761955200000, 1) \<mapsto> \<lparr>kwh = 2, month_name = Some ''Novembre'',
               source_date = ''01/11/2025'', created_at = 1000, updated_at = 1000\<rparr>],
          pending = None, issued = 6\<rparr>, Inr (2, 0))"
    by (simp add: store_eval date_eval upt_rec Let_def)
  show ?thesis using a b c d parseMonthlyValue_nonneg by blast
qed

theorem normalisers_differ_on_sign_witness:
  "parseMonthlyValue ''-0,25'' = Some (1 / 4) \<and> (0 :: rat) \<le> 1 / 4"
proof -
  have p: "parseMonthlyValue ''-0,25'' = Some (1 / 4)" by (simp add: number_eval)
  have "(0 :: rat) \<le> 1 / 4" using normalisers_differ_on_sign p by blast
  with p show ?thesis by blast
qed

end
